theory Spec2Isabelle
  imports Complex_Main
begin

section \<open>Python values, exceptions and configuration\<close>

text \<open>
  The load generator \<^verbatim>\<open>workload_generator.py\<close> is embedded function by function.
  Wall-clock readings and durations are exact rationals (an idealised clock; Python
  uses floats), Python's unbounded integers are \<open>int\<close>, exceptions are values of a sum
  type, and everything the program does to the outside (HTTP calls, sleeping, reading
  the clock) goes through an explicit \<open>world\<close>.
\<close>

text \<open>What \<^verbatim>\<open>response.json()\<close> can decode to; JSON \<^verbatim>\<open>null\<close> decodes to \<^verbatim>\<open>None\<close>.\<close>

datatype pyval =
    PyNone
  | PyBool bool
  | PyInt int
  | PyFloat rat
  | PyStr string
  | PyList "pyval list"
  | PyDict "(string \<times> pyval) list"

datatype exn_class =
    HTTPError | ConnectionError | Timeout | JSONDecodeError
  | ValueError | AttributeError | ZeroDivisionError | StatisticsError

text \<open>An exception object: its class and the text \<^verbatim>\<open>str(e)\<close> gives.\<close>

datatype exn = Exn (cls: exn_class) (str: string)

text \<open>
  \<^verbatim>\<open>except requests.exceptions.RequestException\<close> catches the classes of the
  \<^verbatim>\<open>requests\<close> hierarchy: \<^verbatim>\<open>HTTPError\<close>, \<^verbatim>\<open>ConnectionError\<close>, \<^verbatim>\<open>Timeout\<close> and (since
  requests 2.27) the \<^verbatim>\<open>JSONDecodeError\<close> that \<^verbatim>\<open>response.json()\<close> raises on a malformed
  body. The builtin exceptions are not among them.
\<close>

fun is_RequestException :: "exn_class \<Rightarrow> bool" where
  "is_RequestException HTTPError = True"
| "is_RequestException ConnectionError = True"
| "is_RequestException Timeout = True"
| "is_RequestException JSONDecodeError = True"
| "is_RequestException ValueError = False"
| "is_RequestException AttributeError = False"
| "is_RequestException ZeroDivisionError = False"
| "is_RequestException StatisticsError = False"

text \<open>The module-level dictionary \<^verbatim>\<open>CONFIG\<close> (lines 12-18).\<close>

record config =
  BASE_URL :: string
  DEFAULT_N_VALUE :: int
  REQUEST_COUNTS :: "int list"
  TIMEOUT :: int
  MAX_RETRIES :: int

definition CONFIG :: config where
  "CONFIG = \<lparr>BASE_URL = ''IP_OF_THE_VM'', DEFAULT_N_VALUE = 100000,
     REQUEST_COUNTS = [1, 10, 50, 100, 200, 300, 400, 500, 600, 700, 800, 900, 1000],
     TIMEOUT = 30, MAX_RETRIES = 3\<rparr>"

text \<open>The dataclasses \<^verbatim>\<open>RequestResult\<close> (lines 20-25) and \<^verbatim>\<open>WorkloadResult\<close> (27-34).
  \<^verbatim>\<open>error: str = None\<close> is a string or \<^verbatim>\<open>None\<close>; \<^verbatim>\<open>response_data\<close> holds a Python
  value, \<^verbatim>\<open>None\<close> included.\<close>

record RequestResult =
  response_data :: pyval
  execution_time :: rat
  success :: bool
  error :: "string option"

record WorkloadResult =
  total_time :: rat
  throughput :: rat
  avg_calculation_time :: rat
  request_count :: int
  success_rate :: rat
  latencies :: "rat list"

section \<open>The outside world\<close>

text \<open>
  A response object is what its two methods used by \<^verbatim>\<open>send_request\<close> do:
  \<^verbatim>\<open>raise_for_status()\<close> returns or raises (an \<^verbatim>\<open>HTTPError\<close> for a 4xx or 5xx status),
  \<^verbatim>\<open>json()\<close> returns the decoded body or raises.
\<close>

record response =
  raise_for_status :: "exn option"
  json :: "exn + pyval"

text \<open>\<^verbatim>\<open>requests.get\<close> returns a response or raises (connection failure, timeout, ...).\<close>

datatype get_outcome = Response response | Raise exn

text \<open>
  The target as one call of \<^verbatim>\<open>send_request\<close> meets it: what its \<open>i\<close>-th GET does, how
  long that attempt takes up to the next clock reading, and by how much the sleep after
  it overshoots the second asked for.
\<close>

record target =
  reply :: "nat \<Rightarrow> get_outcome"
  took :: "nat \<Rightarrow> rat"
  oversleep :: "nat \<Rightarrow> rat"

text \<open>What the program did to the outside, in order: GETs (url, \<open>n\<close>, timeout) and sleeps.\<close>

datatype event = Get string int int | Sleep rat

record world =
  clock :: rat
  trace :: "event list"

definition requests_get ::
  "target \<Rightarrow> nat \<Rightarrow> string \<Rightarrow> int \<Rightarrow> int \<Rightarrow> world \<Rightarrow> get_outcome \<times> world" where
  "requests_get tgt i url n timeout w =
     (reply tgt i, w\<lparr>clock := clock w + took tgt i, trace := trace w @ [Get url n timeout]\<rparr>)"

definition time_sleep :: "rat \<Rightarrow> rat \<Rightarrow> world \<Rightarrow> world" where
  "time_sleep secs lag w = w\<lparr>clock := clock w + secs + lag, trace := trace w @ [Sleep secs]\<rparr>"

text \<open>\<^verbatim>\<open>range(m)\<close>: empty for \<open>m \<le> 0\<close>.\<close>

definition py_range :: "int \<Rightarrow> nat list" where
  "py_range m = [0..<nat m]"

section \<open>send_request (lines 42-65)\<close>

text \<open>The body of the \<^verbatim>\<open>try\<close>: the GET, \<^verbatim>\<open>raise_for_status()\<close>, then the result, whose
  fields are evaluated in order (\<^verbatim>\<open>response.json()\<close> before the clock is read).\<close>

definition try_body ::
  "config \<Rightarrow> int \<Rightarrow> int \<Rightarrow> target \<Rightarrow> rat \<Rightarrow> nat \<Rightarrow> world \<Rightarrow> (exn + RequestResult) \<times> world" where
  "try_body cfg n timeout tgt start_time attempt w =
     (case requests_get tgt attempt (BASE_URL cfg @ ''/sum'') n timeout w of
        (Raise e, w') \<Rightarrow> (Inl e, w')
      | (Response resp, w') \<Rightarrow>
          (case raise_for_status resp of
             Some e \<Rightarrow> (Inl e, w')
           | None \<Rightarrow>
               (case json resp of
                  Inl e \<Rightarrow> (Inl e, w')
                | Inr data \<Rightarrow>
                    (Inr \<lparr>response_data = data, execution_time = clock w' - start_time,
                          success = True, error = None\<rparr>, w'))))"

text \<open>
  The \<^verbatim>\<open>for attempt in range(CONFIG['MAX_RETRIES'])\<close> loop over the attempts still to
  make. A function that falls off its end returns \<^verbatim>\<open>None\<close>: the result is
  \<open>Inr None\<close> then, \<open>Inr (Some r)\<close> for a returned \<^verbatim>\<open>RequestResult\<close>, and \<open>Inl e\<close> for an
  exception the \<^verbatim>\<open>except\<close> clause does not catch.
\<close>

fun retry_loop ::
  "config \<Rightarrow> int \<Rightarrow> int \<Rightarrow> target \<Rightarrow> rat \<Rightarrow> nat list \<Rightarrow> world
     \<Rightarrow> (exn + RequestResult option) \<times> world" where
  "retry_loop cfg n timeout tgt start_time [] w = (Inr None, w)"
| "retry_loop cfg n timeout tgt start_time (attempt # rest) w =
     (case try_body cfg n timeout tgt start_time attempt w of
        (Inr r, w') \<Rightarrow> (Inr (Some r), w')
      | (Inl e, w') \<Rightarrow>
          if is_RequestException (cls e) then
            if int attempt = MAX_RETRIES cfg - 1 then
              (Inr (Some \<lparr>response_data = PyNone, execution_time = clock w' - start_time,
                          success = False, error = Some (str e)\<rparr>), w')
            else retry_loop cfg n timeout tgt start_time rest
                   (time_sleep 1 (oversleep tgt attempt) w')
          else (Inl e, w'))"

definition send_request ::
  "config \<Rightarrow> int \<Rightarrow> int \<Rightarrow> target \<Rightarrow> world \<Rightarrow> (exn + RequestResult option) \<times> world" where
  "send_request cfg n timeout tgt w =
     (let start_time = clock w
      in retry_loop cfg n timeout tgt start_time (py_range (MAX_RETRIES cfg)) w)"

section \<open>run_workload (lines 67-87)\<close>

text \<open>
  A submitted call runs \<^verbatim>\<open>send_request(n)\<close>, with the default timeout, in a worker of its
  own: the pool has as many workers as there are calls, so every call starts when the
  batch starts. Its future holds what the call returned or raised, when it finished and
  what it did.
\<close>

record future =
  result :: "exn + RequestResult option"
  finished :: rat
  events :: "event list"

definition submit :: "config \<Rightarrow> int \<Rightarrow> target \<Rightarrow> rat \<Rightarrow> future" where
  "submit cfg n tgt t0 =
     (case send_request cfg n (TIMEOUT cfg) tgt \<lparr>clock = t0, trace = []\<rparr> of
        (res, w) \<Rightarrow> \<lparr>result = res, finished = clock w, events = trace w\<rparr>)"

text \<open>\<^verbatim>\<open>as_completed\<close> yields the futures in the order they finish.\<close>

definition as_completed :: "future list \<Rightarrow> future list" where
  "as_completed fs = sort_key finished fs"

text \<open>\<^verbatim>\<open>[future.result() for future in ...]\<close>: \<^verbatim>\<open>result()\<close> re-raises what the call raised.\<close>

fun collect_results :: "future list \<Rightarrow> exn + RequestResult option list" where
  "collect_results [] = Inr []"
| "collect_results (f # fs) =
     (case result f of
        Inl e \<Rightarrow> Inl e
      | Inr r \<Rightarrow> (case collect_results fs of Inl e \<Rightarrow> Inl e | Inr rs \<Rightarrow> Inr (r # rs)))"

text \<open>\<^verbatim>\<open>[r for r in results if r.success]\<close>: reading \<^verbatim>\<open>.success\<close> of \<^verbatim>\<open>None\<close> raises.\<close>

fun successful :: "RequestResult option list \<Rightarrow> exn + RequestResult list" where
  "successful [] = Inr []"
| "successful (None # rs) =
     Inl (Exn AttributeError ''NoneType object has no attribute success'')"
| "successful (Some r # rs) =
     (case successful rs of
        Inl e \<Rightarrow> Inl e
      | Inr ss \<Rightarrow> Inr (if success r then r # ss else ss))"

text \<open>Python's \<^verbatim>\<open>/\<close> and \<^verbatim>\<open>statistics.mean\<close>.\<close>

definition truediv :: "rat \<Rightarrow> rat \<Rightarrow> exn + rat" where
  "truediv a b = (if b = 0 then Inl (Exn ZeroDivisionError ''division by zero'') else Inr (a / b))"

definition mean :: "rat list \<Rightarrow> exn + rat" where
  "mean xs =
     (if xs = [] then Inl (Exn StatisticsError ''mean requires at least one data point'')
      else Inr (sum_list xs / of_nat (length xs)))"

text \<open>
  Lines 76-87: the reduction of the collected results to a \<^verbatim>\<open>WorkloadResult\<close>.
  \<^verbatim>\<open>statistics.mean\<close> is only called on a non-empty list; with none, the mean is \<open>0\<close>.
\<close>

definition aggregate :: "int \<Rightarrow> rat \<Rightarrow> RequestResult option list \<Rightarrow> exn + WorkloadResult" where
  "aggregate num_requests total_secs results =
     (case successful results of
        Inl e \<Rightarrow> Inl e
      | Inr successful_results \<Rightarrow>
          (case truediv (of_nat (length successful_results)) (of_int num_requests) of
             Inl e \<Rightarrow> Inl e
           | Inr rate \<Rightarrow>
               (case (if map execution_time successful_results \<noteq> []
                      then mean (map execution_time successful_results) else Inr 0) of
                  Inl e \<Rightarrow> Inl e
                | Inr avg \<Rightarrow>
                    Inr \<lparr>total_time = total_secs,
                         throughput = (if total_secs > 0 then of_int num_requests / total_secs else 0),
                         avg_calculation_time = avg,
                         request_count = num_requests,
                         success_rate = rate,
                         latencies = map execution_time successful_results\<rparr>)))"

text \<open>Line 70: one future per call, call \<open>j\<close> meeting the target \<open>tgts j\<close>.\<close>

definition submit_all :: "config \<Rightarrow> int \<Rightarrow> int \<Rightarrow> (nat \<Rightarrow> target) \<Rightarrow> rat \<Rightarrow> future list" where
  "submit_all cfg num_requests n tgts t0 =
     map (\<lambda>j. submit cfg n (tgts j) t0) (py_range num_requests)"

text \<open>
  \<^verbatim>\<open>ThreadPoolExecutor(max_workers=num_requests)\<close> raises \<^verbatim>\<open>ValueError\<close> unless
  \<open>num_requests > 0\<close>. Leaving the \<^verbatim>\<open>with\<close> block waits for every worker, also when the
  block raised: the clock then stands at the latest finish, and all calls have left
  their events (listed call by call).
\<close>

definition run_workload ::
  "config \<Rightarrow> int \<Rightarrow> int \<Rightarrow> (nat \<Rightarrow> target) \<Rightarrow> world \<Rightarrow> (exn + WorkloadResult) \<times> world" where
  "run_workload cfg num_requests n tgts w =
     (if num_requests \<le> 0
      then (Inl (Exn ValueError ''max_workers must be greater than 0''), w)
      else
        (let start_time = clock w;
             futures = submit_all cfg num_requests n tgts start_time;
             end_time = fold max (map finished futures) start_time;
             w' = \<lparr>clock = end_time, trace = trace w @ concat (map events futures)\<rparr>
         in (case collect_results (as_completed futures) of
               Inl e \<Rightarrow> (Inl e, w')
             | Inr results \<Rightarrow> (aggregate num_requests (end_time - start_time) results, w'))))"

section \<open>main (lines 139-157)\<close>



text \<open>
  The \<^verbatim>\<open>for count in CONFIG['REQUEST_COUNTS']\<close> loop: level \<open>l\<close> of the sweep meets the
  targets \<open>env l\<close>, one per call; the levels run one after the other in one world.
\<close>

fun sweep ::
  "config \<Rightarrow> (nat \<Rightarrow> nat \<Rightarrow> target) \<Rightarrow> nat \<Rightarrow> int list \<Rightarrow> WorkloadResult list \<Rightarrow> world
     \<Rightarrow> (exn + WorkloadResult list) \<times> world" where
  "sweep cfg env l [] results w = (Inr results, w)"
| "sweep cfg env l (count # counts) results w =
     (case run_workload cfg count (DEFAULT_N_VALUE cfg) (env l) w of
        (Inl e, w') \<Rightarrow> (Inl e, w')
      | (Inr r, w') \<Rightarrow> sweep cfg env (Suc l) counts (results @ [r]) w')"


section \<open>Notions used in the statements\<close>

text \<open>What attempt \<open>i\<close> against a target comes to: the exception that ends the
  \<^verbatim>\<open>try\<close> body, or the decoded payload.\<close>

definition outcome :: "target \<Rightarrow> nat \<Rightarrow> exn + pyval" where
  "outcome tgt i =
     (case reply tgt i of
        Raise e \<Rightarrow> Inl e
      | Response resp \<Rightarrow> (case raise_for_status resp of Some e \<Rightarrow> Inl e | None \<Rightarrow> json resp))"

text \<open>The attempt fails with an exception of the \<^verbatim>\<open>requests\<close> hierarchy: an HTTP error
  status, a connection failure, a timeout or a malformed body.\<close>

definition fails :: "target \<Rightarrow> nat \<Rightarrow> bool" where
  "fails tgt i = (case outcome tgt i of Inl e \<Rightarrow> is_RequestException (cls e) | Inr d \<Rightarrow> False)"

text \<open>The attempt succeeds or fails in one of those ways: nothing else is raised.\<close>

definition contained :: "target \<Rightarrow> nat \<Rightarrow> bool" where
  "contained tgt i = (case outcome tgt i of Inl e \<Rightarrow> is_RequestException (cls e) | Inr d \<Rightarrow> True)"

text \<open>Some attempt within the retry budget, made or not, would succeed. When the
  attempts are contained, these are the calls that return a success.\<close>

definition call_succeeds :: "config \<Rightarrow> target \<Rightarrow> bool" where
  "call_succeeds cfg tgt =
     list_ex (\<lambda>i. case outcome tgt i of Inl e \<Rightarrow> False | Inr d \<Rightarrow> True) (py_range (MAX_RETRIES cfg))"

text \<open>Python's \<^verbatim>\<open>round\<close> to an integer: halves go to the even neighbour.\<close>

definition py_round :: "rat \<Rightarrow> int" where
  "py_round x =
     (if x - of_int \<lfloor>x\<rfloor> < 1 / 2 then \<lfloor>x\<rfloor>
      else if x - of_int \<lfloor>x\<rfloor> > 1 / 2 then \<lfloor>x\<rfloor> + 1
      else if even \<lfloor>x\<rfloor> then \<lfloor>x\<rfloor> else \<lfloor>x\<rfloor> + 1)"

section \<open>Example targets\<close>

text \<open>A target that refuses every connection, one that answers every GET with a body
  decoding to \<open>d\<close>, and one that answers the first GET with an error status and serves
  from then on; a payload of the shape the service returns; and a world in which nothing
  has happened yet.\<close>

definition refusing :: target where
  "refusing = \<lparr>reply = (\<lambda>i. Raise (Exn ConnectionError ''Connection refused'')),
                took = (\<lambda>i. 1 / 10), oversleep = (\<lambda>i. 0)\<rparr>"

definition serving :: "pyval \<Rightarrow> target" where
  "serving d = \<lparr>reply = (\<lambda>i. Response \<lparr>raise_for_status = None, json = Inr d\<rparr>),
                 took = (\<lambda>i. 1 / 100), oversleep = (\<lambda>i. 0)\<rparr>"

definition flaky :: "pyval \<Rightarrow> target" where
  "flaky d =
     \<lparr>reply = (\<lambda>i. if i = 0
                    then Response \<lparr>raise_for_status = Some (Exn HTTPError ''500 Server Error''),
                                   json = Inl (Exn JSONDecodeError ''Expecting value'')\<rparr>
                    else Response \<lparr>raise_for_status = None, json = Inr d\<rparr>),
      took = (\<lambda>i. 1 / 100), oversleep = (\<lambda>i. 1 / 1000)\<rparr>"

definition sum_100 :: pyval where
  "sum_100 = PyDict [(''n'', PyInt 100), (''sum_of_primes'', PyInt 1060), (''time'', PyFloat (1 / 1000))]"

definition idle :: world where
  "idle = \<lparr>clock = 0, trace = []\<rparr>"

section \<open>The retry loop\<close>

lemma try_body_outcome:
  "try_body cfg n timeout tgt st i w =
     (case outcome tgt i of
        Inl e \<Rightarrow> Inl e
      | Inr d \<Rightarrow> Inr \<lparr>response_data = d, execution_time = clock w + took tgt i - st,
                      success = True, error = None\<rparr>,
      snd (requests_get tgt i (BASE_URL cfg @ ''/sum'') n timeout w))"
  by (simp add: try_body_def requests_get_def outcome_def
      split: get_outcome.splits option.splits sum.splits)

lemma clock_after_get [simp]:
  "clock (snd (requests_get tgt i url n timeout w)) = clock w + took tgt i"
  by (simp add: requests_get_def)

lemma trace_after_get [simp]:
  "trace (snd (requests_get tgt i url n timeout w)) = trace w @ [Get url n timeout]"
  by (simp add: requests_get_def)

lemma clock_time_sleep [simp]: "clock (time_sleep secs lag w) = clock w + secs + lag"
  by (simp add: time_sleep_def)

lemma trace_time_sleep [simp]: "trace (time_sleep secs lag w) = trace w @ [Sleep secs]"
  by (simp add: time_sleep_def)

text \<open>One turn of the loop, with the attempts \<open>k, ..., m - 1\<close> still to make.\<close>

lemma retry_loop_upt:
  "k < m \<Longrightarrow> retry_loop cfg n timeout tgt st [k..<m] w =
     (case outcome tgt k of
        Inr d \<Rightarrow>
          (Inr (Some \<lparr>response_data = d, execution_time = clock w + took tgt k - st,
                      success = True, error = None\<rparr>),
           snd (requests_get tgt k (BASE_URL cfg @ ''/sum'') n timeout w))
      | Inl e \<Rightarrow>
          if is_RequestException (cls e) then
            if int k = MAX_RETRIES cfg - 1 then
              (Inr (Some \<lparr>response_data = PyNone,
                          execution_time = clock w + took tgt k - st,
                          success = False, error = Some (str e)\<rparr>),
               snd (requests_get tgt k (BASE_URL cfg @ ''/sum'') n timeout w))
            else retry_loop cfg n timeout tgt st [Suc k..<m]
                   (time_sleep 1 (oversleep tgt k)
                      (snd (requests_get tgt k (BASE_URL cfg @ ''/sum'') n timeout w)))
          else (Inl e, snd (requests_get tgt k (BASE_URL cfg @ ''/sum'') n timeout w)))"
  by (simp add: upt_conv_Cons try_body_outcome split: sum.splits)

text \<open>With at least one attempt to make, the loop never falls off its end.\<close>

lemma retry_loop_not_None:
  assumes "k < m" and "int m = MAX_RETRIES cfg"
  shows "fst (retry_loop cfg n timeout tgt st [k..<m] w) \<noteq> Inr None"
  using assms
proof (induction k arbitrary: w rule: strict_inc_induct)
  case (base i)
  have lt: "i < m" and last: "int i = MAX_RETRIES cfg - 1" using base by simp_all
  show ?case unfolding retry_loop_upt [OF lt]
    using last by (simp split: sum.splits)
next
  case (step i)
  have lt: "i < m" using step.hyps by simp
  show ?case unfolding retry_loop_upt [OF lt]
    using step.IH [OF step.prems] by (simp split: sum.splits)
qed

text \<open>Whatever the loop returns is a success without an error text and with the payload
  some attempt decoded, or a failure with an error text and no payload.\<close>

lemma retry_loop_returned:
  assumes "retry_loop cfg n timeout tgt st [k..<m] w = (Inr (Some r), w')"
  shows "if success r
         then error r = None \<and> (\<exists>i. k \<le> i \<and> i < m \<and> outcome tgt i = Inr (response_data r))
         else response_data r = PyNone \<and> (\<exists>i e. k \<le> i \<and> i < m \<and> outcome tgt i = Inl e \<and> error r = Some (str e))"
  using assms
proof (induction "m - k" arbitrary: k w)
  case 0
  then show ?case by simp
next
  case (Suc d)
  have lt: "k < m" using Suc.hyps(2) by simp
  have d: "d = m - Suc k" using Suc.hyps(2) by simp
  show ?case
  proof (cases "outcome tgt k")
    case (Inr p)
    then show ?thesis using Suc.prems lt unfolding retry_loop_upt [OF lt] by auto
  next
    case (Inl e)
    show ?thesis
    proof (cases "is_RequestException (cls e) \<and> int k \<noteq> MAX_RETRIES cfg - 1")
      case True
      then have "retry_loop cfg n timeout tgt st [Suc k..<m]
          (time_sleep 1 (oversleep tgt k)
             (snd (requests_get tgt k (BASE_URL cfg @ ''/sum'') n timeout w))) = (Inr (Some r), w')"
        using Suc.prems Inl unfolding retry_loop_upt [OF lt] by simp
      from Suc.hyps(1) [OF d this] show ?thesis
        by (auto split: if_splits intro: Suc_leD)
    next
      case False
      then show ?thesis using Suc.prems Inl lt unfolding retry_loop_upt [OF lt]
        by (auto split: if_splits)
    qed
  qed
qed

text \<open>The attempts \<open>j, ..., k - 1\<close> fail and are retried, attempt \<open>k\<close> decides: it succeeds,
  or it is the last one and fails.\<close>

lemma retry_loop_run:
  assumes "j \<le> k" and "k < m" and "int m = MAX_RETRIES cfg"
    and "\<forall>i. j \<le> i \<and> i < k \<longrightarrow> fails tgt i"
    and "outcome tgt k = Inr d \<or> (fails tgt k \<and> Suc k = m)"
  shows "retry_loop cfg n timeout tgt st [j..<m] w =
     (Inr (Some (case outcome tgt k of
                   Inr d \<Rightarrow> \<lparr>response_data = d,
                             execution_time = clock w
                               + sum_list (map (\<lambda>i. took tgt i + 1 + oversleep tgt i) [j..<k])
                               + took tgt k - st,
                             success = True, error = None\<rparr>
                 | Inl e \<Rightarrow> \<lparr>response_data = PyNone,
                             execution_time = clock w
                               + sum_list (map (\<lambda>i. took tgt i + 1 + oversleep tgt i) [j..<k])
                               + took tgt k - st,
                             success = False, error = Some (str e)\<rparr>)),
      w\<lparr>clock := clock w + sum_list (map (\<lambda>i. took tgt i + 1 + oversleep tgt i) [j..<k])
                + took tgt k,
        trace := trace w
          @ concat (map (\<lambda>i. [Get (BASE_URL cfg @ ''/sum'') n timeout, Sleep 1]) [j..<k])
          @ [Get (BASE_URL cfg @ ''/sum'') n timeout]\<rparr>)"
  using assms
proof (induction j arbitrary: w rule: inc_induct)
  case base
  have last: "fails tgt k \<Longrightarrow> Suc k = m \<Longrightarrow> int k = MAX_RETRIES cfg - 1"
    using base by auto
  show ?case unfolding retry_loop_upt [OF base(1)]
    using base(4) last
    by (auto simp: fails_def requests_get_def split: sum.splits)
next
  case (step i)
  have lt: "i < m" using step by simp
  have notlast: "int i \<noteq> MAX_RETRIES cfg - 1" using step by auto
  have f: "fails tgt i" using step by simp
  have rest: "\<forall>l. Suc i \<le> l \<and> l < k \<longrightarrow> fails tgt l" using step.prems by simp
  note IH = step.IH [OF step.prems(1,2) rest step.prems(4)]
  have cons: "[i..<k] = i # [Suc i..<k]" using step.hyps by (simp add: upt_conv_Cons)
  show ?case unfolding retry_loop_upt [OF lt] IH cons
    using f notlast
    by (auto simp: fails_def requests_get_def time_sleep_def algebra_simps split: sum.splits)
qed

text \<open>When every attempt still to make succeeds or fails with a request exception, the
  loop returns a result: a success exactly when one of them succeeds.\<close>

lemma retry_loop_contained:
  assumes "k < m" and "int m = MAX_RETRIES cfg"
    and "\<forall>i. k \<le> i \<and> i < m \<longrightarrow> contained tgt i"
  shows "\<exists>r w'. retry_loop cfg n timeout tgt st [k..<m] w = (Inr (Some r), w')
           \<and> (success r \<longleftrightarrow> (\<exists>i. k \<le> i \<and> i < m \<and> \<not> fails tgt i))
           \<and> (\<not> success r \<longrightarrow> error r \<noteq> None)"
  using assms
proof (induction k arbitrary: w rule: strict_inc_induct)
  case (base i)
  have c: "contained tgt i" using base by simp
  have last: "int i = MAX_RETRIES cfg - 1" using base by simp
  have lt: "i < m" using base by simp
  have only: "(\<exists>l. i \<le> l \<and> l < m \<and> \<not> fails tgt l) \<longleftrightarrow> \<not> fails tgt i"
    using base(1) by (auto simp: less_Suc_eq_le)
  show ?case
    unfolding retry_loop_upt [OF lt] only
    using c last by (cases "outcome tgt i") (simp_all add: contained_def fails_def)
next
  case (step i)
  have lt: "i < m" using step.hyps by simp
  have c: "contained tgt i" using step.prems lt by simp
  have rest: "\<forall>j. Suc i \<le> j \<and> j < m \<longrightarrow> contained tgt j" using step.prems by simp
  note IH = step.IH [OF step.prems(1) rest]
  have split: "(\<exists>l. i \<le> l \<and> l < m \<and> \<not> fails tgt l)
      \<longleftrightarrow> \<not> fails tgt i \<or> (\<exists>l. Suc i \<le> l \<and> l < m \<and> \<not> fails tgt l)"
    using lt by (metis Suc_leD Suc_leI le_neq_implies_less order_refl)
  have notlast: "int i \<noteq> MAX_RETRIES cfg - 1" using step.hyps step.prems(1) by auto
  show ?case
    unfolding retry_loop_upt [OF lt] split
    using c IH notlast by (cases "outcome tgt i") (simp_all add: contained_def fails_def)
qed

text \<open>The clock only moves forward, and past the first attempt.\<close>

lemma retry_loop_clock_mono:
  assumes "\<forall>i. k \<le> i \<and> i < m \<longrightarrow> 0 \<le> took tgt i \<and> 0 \<le> oversleep tgt i"
  shows "clock w \<le> clock (snd (retry_loop cfg n timeout tgt st [k..<m] w))"
  using assms
proof (induction "m - k" arbitrary: k w)
  case 0
  then show ?case by simp
next
  case (Suc d)
  have lt: "k < m" using Suc.hyps(2) by simp
  have d: "d = m - Suc k" using Suc.hyps(2) by simp
  have rest: "\<forall>i. Suc k \<le> i \<and> i < m \<longrightarrow> 0 \<le> took tgt i \<and> 0 \<le> oversleep tgt i"
    using Suc.prems by simp
  have here: "0 \<le> took tgt k" "0 \<le> oversleep tgt k" using Suc.prems lt by simp_all
  note IH = Suc.hyps(1) [OF d rest, of "time_sleep 1 (oversleep tgt k)
      (snd (requests_get tgt k (BASE_URL cfg @ ''/sum'') n timeout w))"]
  show ?case unfolding retry_loop_upt [OF lt]
    using IH here by (auto split: sum.splits)
qed

lemma retry_loop_clock_strict:
  assumes "k < m" and "0 < took tgt k"
    and "\<forall>i. k \<le> i \<and> i < m \<longrightarrow> 0 \<le> took tgt i \<and> 0 \<le> oversleep tgt i"
  shows "clock w < clock (snd (retry_loop cfg n timeout tgt st [k..<m] w))"
proof -
  have rest: "\<forall>i. Suc k \<le> i \<and> i < m \<longrightarrow> 0 \<le> took tgt i \<and> 0 \<le> oversleep tgt i"
    using assms(3) by simp
  have here: "0 \<le> oversleep tgt k" using assms(1,3) by simp
  show ?thesis unfolding retry_loop_upt [OF assms(1)]
    using retry_loop_clock_mono [OF rest, where w = "time_sleep 1 (oversleep tgt k)
      (snd (requests_get tgt k (BASE_URL cfg @ ''/sum'') n timeout w))" and cfg = cfg
      and n = n and timeout = timeout and st = st]
      assms(2) here
    by (auto split: sum.splits)
qed

lemma send_request_upt:
  "send_request cfg n timeout tgt w =
     retry_loop cfg n timeout tgt (clock w) [0..<nat (MAX_RETRIES cfg)] w"
  by (simp add: send_request_def py_range_def)

lemma send_request_contained:
  assumes "1 \<le> MAX_RETRIES cfg"
    and "\<forall>i. int i < MAX_RETRIES cfg \<longrightarrow> contained tgt i"
  shows "\<exists>r w'. send_request cfg n timeout tgt w = (Inr (Some r), w')
           \<and> (success r \<longleftrightarrow> (\<exists>i d. int i < MAX_RETRIES cfg \<and> outcome tgt i = Inr d))
           \<and> (\<not> success r \<longrightarrow> error r \<noteq> None)"
proof -
  have m: "0 < nat (MAX_RETRIES cfg)" "int (nat (MAX_RETRIES cfg)) = MAX_RETRIES cfg"
    using assms(1) by simp_all
  have c: "\<forall>i. 0 \<le> i \<and> i < nat (MAX_RETRIES cfg) \<longrightarrow> contained tgt i"
    using assms(2) by simp
  have idx: "i < nat (MAX_RETRIES cfg) \<longleftrightarrow> int i < MAX_RETRIES cfg" for i
    using assms(1) by linarith
  have nf: "\<not> fails tgt i \<longleftrightarrow> (\<exists>d. outcome tgt i = Inr d)" if "int i < MAX_RETRIES cfg" for i
    using assms(2) that by (cases "outcome tgt i") (auto simp: contained_def fails_def)
  have "(\<exists>i. 0 \<le> i \<and> i < nat (MAX_RETRIES cfg) \<and> \<not> fails tgt i)
      \<longleftrightarrow> (\<exists>i d. int i < MAX_RETRIES cfg \<and> outcome tgt i = Inr d)"
    using nf by (auto simp: idx)
  then show ?thesis
    using retry_loop_contained [OF m c, of n timeout "clock w" w]
    by (simp add: send_request_upt)
qed

lemma sum_list_attempts:
  "sum_list (map (\<lambda>i. f i + 1 + g i) [0..<k]) + f k
     = sum_list (map f [0..<Suc k]) + sum_list (map (\<lambda>i. 1 + g i) [0..<k])"
  for f g :: "nat \<Rightarrow> rat"
  by (induction k) (simp_all add: algebra_simps)

section \<open>Claims about send_request\<close>



text \<open>
  C9. \<^verbatim>\<open>send_request\<close> returns \<^verbatim>\<open>None\<close> instead of a \<^verbatim>\<open>RequestResult\<close> exactly when the
  configured retry count is below one: the loop body never runs then, no request is
  made and the world is left as it was. With a retry count of at least one it never
  returns \<^verbatim>\<open>None\<close>.
\<close>

theorem send_request_None_iff:
  "(fst (send_request cfg n timeout tgt w) = Inr None) = (MAX_RETRIES cfg \<le> 0)
   \<and> (MAX_RETRIES cfg \<le> 0 \<longrightarrow> send_request cfg n timeout tgt w = (Inr None, w))"
proof (cases "MAX_RETRIES cfg \<le> 0")
  case True
  then show ?thesis by (simp add: send_request_upt)
next
  case False
  then have m: "0 < nat (MAX_RETRIES cfg)" "int (nat (MAX_RETRIES cfg)) = MAX_RETRIES cfg"
    by simp_all
  show ?thesis
    using False retry_loop_not_None [OF m, of n timeout tgt "clock w" w]
    by (simp add: send_request_upt)
qed

theorem send_request_None_iff_witness:
  "send_request (CONFIG\<lparr>MAX_RETRIES := 0\<rparr>) 100000 30 (serving sum_100) idle = (Inr None, idle)
   \<and> fst (send_request CONFIG 100000 30 (serving sum_100) idle) \<noteq> Inr None"
  using send_request_None_iff [of "CONFIG\<lparr>MAX_RETRIES := 0\<rparr>" 100000 30 "serving sum_100" idle]
    send_request_None_iff [of CONFIG 100000 30 "serving sum_100" idle]
  by (simp add: CONFIG_def)

text \<open>
  C3. With \<^verbatim>\<open>MAX_RETRIES = 3\<close> and a target whose three attempts all fail,
  \<^verbatim>\<open>send_request\<close> makes exactly three GETs with a sleep of one second between
  consecutive ones, and returns a failure that carries the text of the last attempt's
  exception; its elapsed time is the time from entry to return, at least the two
  seconds slept (time does not run backwards).
\<close>

theorem send_request_retry_exhaustion:
  assumes "MAX_RETRIES cfg = 3"
    and "\<forall>i<3. fails tgt i"
    and "\<forall>i<3. 0 \<le> took tgt i \<and> 0 \<le> oversleep tgt i"
    and "outcome tgt 2 = Inl e"
  shows "\<exists>r w'. send_request cfg n timeout tgt w = (Inr (Some r), w')
     \<and> trace w' = trace w @
         [Get (BASE_URL cfg @ ''/sum'') n timeout, Sleep 1,
          Get (BASE_URL cfg @ ''/sum'') n timeout, Sleep 1,
          Get (BASE_URL cfg @ ''/sum'') n timeout]
     \<and> \<not> success r \<and> response_data r = PyNone \<and> error r = Some (str e)
     \<and> execution_time r = clock w' - clock w
     \<and> execution_time r =
         took tgt 0 + (1 + oversleep tgt 0) + took tgt 1 + (1 + oversleep tgt 1) + took tgt 2
     \<and> 2 \<le> execution_time r"
proof -
  have f: "\<forall>i. 0 \<le> i \<and> i < 2 \<longrightarrow> fails tgt i" using assms(2) by simp
  have l: "outcome tgt 2 = Inr d \<or> fails tgt 2 \<and> Suc 2 = 3" for d using assms(2) by simp
  have t: "0 \<le> took tgt 0" "0 \<le> took tgt 1" "0 \<le> took tgt 2"
    "0 \<le> oversleep tgt 0" "0 \<le> oversleep tgt 1"
    using assms(3) by simp_all
  have upt2: "[0..<2] = [0, Suc 0]" by (simp add: upt_rec)
  show ?thesis
    using retry_loop_run [of 0 2 3 cfg tgt _ n timeout "clock w" w, OF _ _ _ f l] assms(1,4) t
    by (simp add: send_request_upt upt2)
qed

theorem send_request_retry_exhaustion_witness:
  "\<exists>r w'. send_request CONFIG 100000 30 refusing idle = (Inr (Some r), w')
     \<and> trace w' =
         [Get ''IP_OF_THE_VM/sum'' 100000 30, Sleep 1,
          Get ''IP_OF_THE_VM/sum'' 100000 30, Sleep 1,
          Get ''IP_OF_THE_VM/sum'' 100000 30]
     \<and> \<not> success r \<and> response_data r = PyNone \<and> error r = Some ''Connection refused''
     \<and> execution_time r = 23 / 10 \<and> 2 \<le> execution_time r"
  using send_request_retry_exhaustion
    [of CONFIG refusing "Exn ConnectionError ''Connection refused''" 100000 30 idle]
  by (auto simp: CONFIG_def fails_def outcome_def refusing_def idle_def)

text \<open>
  C4. When attempt \<open>k\<close> (counted from one, within the retry budget) is the first to succeed,
  the returned \<^verbatim>\<open>execution_time\<close> is the time from entry to the end of that attempt: the
  durations of all \<open>k\<close> attempts plus the \<open>k - 1\<close> sleeps between them, not the winning
  attempt's duration alone.
\<close>

theorem send_request_elapsed_total:
  assumes "1 \<le> k" and "int k \<le> MAX_RETRIES cfg"
    and "\<forall>i<k - 1. fails tgt i"
    and "outcome tgt (k - 1) = Inr d"
  shows "\<exists>w'. send_request cfg n timeout tgt w =
           (Inr (Some \<lparr>response_data = d,
                       execution_time = sum_list (map (took tgt) [0..<k])
                         + sum_list (map (\<lambda>i. 1 + oversleep tgt i) [0..<k - 1]),
                       success = True, error = None\<rparr>), w')
         \<and> clock w' - clock w = sum_list (map (took tgt) [0..<k])
                         + sum_list (map (\<lambda>i. 1 + oversleep tgt i) [0..<k - 1])"
proof -
  obtain k' where k: "k = Suc k'" using assms(1) by (cases k) simp_all
  have lt: "k' < nat (MAX_RETRIES cfg)" using assms(2) k by simp
  have m: "int (nat (MAX_RETRIES cfg)) = MAX_RETRIES cfg" using assms(2) by simp
  have f: "\<forall>i. 0 \<le> i \<and> i < k' \<longrightarrow> fails tgt i" using assms(3) k by simp
  have o: "outcome tgt k' = Inr d" using assms(4) k by simp
  show ?thesis
    using retry_loop_run [of 0 k' "nat (MAX_RETRIES cfg)" cfg tgt d n timeout "clock w" w,
        OF _ lt m f] o sum_list_attempts [of "took tgt" "oversleep tgt" k']
    by (simp add: send_request_upt k)
qed

theorem send_request_elapsed_total_witness:
  "\<exists>w'. send_request CONFIG 100000 30 (flaky sum_100) idle =
           (Inr (Some \<lparr>response_data = sum_100, execution_time = 1021 / 1000,
                       success = True, error = None\<rparr>), w')
         \<and> clock w' - clock idle = 1021 / 1000
         \<and> took (flaky sum_100) 1 = 1 / 100"
  using send_request_elapsed_total [of 2 CONFIG "flaky sum_100" sum_100 100000 30 idle]
  by (auto simp: CONFIG_def fails_def outcome_def flaky_def upt_rec)

text \<open>
  C8 as stated fails: a success response whose body is the JSON literal \<^verbatim>\<open>null\<close> decodes to
  \<^verbatim>\<open>None\<close>, and the call returns a success whose payload is absent.
\<close>

theorem success_without_payload:
  "send_request CONFIG 100000 30 (serving PyNone) idle =
     (Inr (Some \<lparr>response_data = PyNone, execution_time = 1 / 100, success = True,
                 error = None\<rparr>),
      \<lparr>clock = 1 / 100, trace = [Get ''IP_OF_THE_VM/sum'' 100000 30]\<rparr>)"
  by (simp add: send_request_upt CONFIG_def retry_loop_upt outcome_def serving_def idle_def
      requests_get_def)

text \<open>
  C8, amended. Every \<^verbatim>\<open>RequestResult\<close> that \<^verbatim>\<open>send_request\<close> returns is either a success
  with no error text, whose payload is what the body of some attempt within the retry
  budget decoded to, or a failure with an error text and no payload. So when no body
  decodes to \<^verbatim>\<open>None\<close>, the payload is present exactly on success.
\<close>

theorem send_request_exclusive:
  assumes "send_request cfg n timeout tgt w = (Inr (Some r), w')"
  shows "(if success r
          then error r = None
            \<and> (\<exists>i. int i < MAX_RETRIES cfg \<and> outcome tgt i = Inr (response_data r))
          else response_data r = PyNone \<and> error r \<noteq> None)
       \<and> ((\<forall>i. int i < MAX_RETRIES cfg \<longrightarrow> outcome tgt i \<noteq> Inr PyNone)
            \<longrightarrow> (success r \<longleftrightarrow> response_data r \<noteq> PyNone))"
proof -
  have idx: "int i < MAX_RETRIES cfg" if "i < nat (MAX_RETRIES cfg)" for i
    using that by linarith
  have shape: "if success r
          then error r = None
            \<and> (\<exists>i. int i < MAX_RETRIES cfg \<and> outcome tgt i = Inr (response_data r))
          else response_data r = PyNone \<and> error r \<noteq> None"
    using retry_loop_returned [of cfg n timeout tgt "clock w" 0 "nat (MAX_RETRIES cfg)" w r w']
      assms idx
    by (auto simp: send_request_upt split: if_splits)
  then have "success r \<longleftrightarrow> response_data r \<noteq> PyNone"
    if "\<forall>i. int i < MAX_RETRIES cfg \<longrightarrow> outcome tgt i \<noteq> Inr PyNone"
    using that by (cases "success r") auto
  then show ?thesis using shape by blast
qed

theorem send_request_exclusive_witness:
  "send_request CONFIG 100000 30 (flaky sum_100) idle =
     (Inr (Some \<lparr>response_data = sum_100, execution_time = 1021 / 1000,
                 success = True, error = None\<rparr>),
      \<lparr>clock = 1021 / 1000,
       trace = [Get ''IP_OF_THE_VM/sum'' 100000 30, Sleep 1, Get ''IP_OF_THE_VM/sum'' 100000 30]\<rparr>)
   \<and> (\<exists>i. int i < MAX_RETRIES CONFIG \<and> outcome (flaky sum_100) i = Inr sum_100)
   \<and> sum_100 \<noteq> PyNone"
proof -
  have run: "send_request CONFIG 100000 30 (flaky sum_100) idle =
     (Inr (Some \<lparr>response_data = sum_100, execution_time = 1021 / 1000,
                 success = True, error = None\<rparr>),
      \<lparr>clock = 1021 / 1000,
       trace = [Get ''IP_OF_THE_VM/sum'' 100000 30, Sleep 1, Get ''IP_OF_THE_VM/sum'' 100000 30]\<rparr>)"
    by (simp add: send_request_upt CONFIG_def retry_loop_upt outcome_def flaky_def idle_def
        requests_get_def time_sleep_def)
  have nonnull: "\<forall>i. int i < MAX_RETRIES CONFIG \<longrightarrow> outcome (flaky sum_100) i \<noteq> Inr PyNone"
    by (simp add: outcome_def flaky_def sum_100_def)
  show ?thesis using send_request_exclusive [OF run] run nonnull by simp
qed

section \<open>The batch and its summary\<close>

lemma result_submit:
  "result (submit cfg n tgt t0) = fst (send_request cfg n (TIMEOUT cfg) tgt \<lparr>clock = t0, trace = []\<rparr>)"
  by (simp add: submit_def split: prod.splits)

lemma finished_submit:
  "finished (submit cfg n tgt t0) =
     clock (snd (send_request cfg n (TIMEOUT cfg) tgt \<lparr>clock = t0, trace = []\<rparr>))"
  by (simp add: submit_def split: prod.splits)

lemma events_submit:
  "events (submit cfg n tgt t0) =
     trace (snd (send_request cfg n (TIMEOUT cfg) tgt \<lparr>clock = t0, trace = []\<rparr>))"
  by (simp add: submit_def split: prod.splits)

lemma submit_contained:
  assumes "1 \<le> MAX_RETRIES cfg"
    and "\<forall>i. int i < MAX_RETRIES cfg \<longrightarrow> contained tgt i"
  shows "\<exists>r. result (submit cfg n tgt t0) = Inr (Some r)
           \<and> (success r \<longleftrightarrow> (\<exists>i d. int i < MAX_RETRIES cfg \<and> outcome tgt i = Inr d))"
proof -
  obtain r w' where "send_request cfg n (TIMEOUT cfg) tgt \<lparr>clock = t0, trace = []\<rparr> = (Inr (Some r), w')"
    and "success r \<longleftrightarrow> (\<exists>i d. int i < MAX_RETRIES cfg \<and> outcome tgt i = Inr d)"
    using send_request_contained [OF assms, of n "TIMEOUT cfg" "\<lparr>clock = t0, trace = []\<rparr>"]
    by blast
  then show ?thesis by (simp add: result_submit)
qed

lemma submit_finished_later:
  assumes "1 \<le> MAX_RETRIES cfg"
    and "\<forall>i. 0 < took tgt i \<and> 0 \<le> oversleep tgt i"
  shows "t0 < finished (submit cfg n tgt t0)"
proof -
  have m: "0 < nat (MAX_RETRIES cfg)" using assms(1) by simp
  have nn: "\<forall>i. 0 \<le> i \<and> i < nat (MAX_RETRIES cfg) \<longrightarrow> 0 \<le> took tgt i \<and> 0 \<le> oversleep tgt i"
    using assms(2) by (simp add: less_imp_le)
  show ?thesis
    using retry_loop_clock_strict [OF m _ nn, where cfg = cfg and n = n
        and timeout = "TIMEOUT cfg" and st = t0 and w = "\<lparr>clock = t0, trace = []\<rparr>"]
      assms(2)
    by (simp add: finished_submit send_request_upt)
qed

text \<open>Collecting the results of futures.\<close>

lemma collect_results_Inr:
  "collect_results fs = Inr rs \<longleftrightarrow> map result fs = map Inr rs"
proof (induction fs arbitrary: rs)
  case Nil
  then show ?case by auto
next
  case (Cons f fs)
  show ?case
  proof (cases "result f")
    case (Inl e)
    then show ?thesis by (cases rs) auto
  next
    case (Inr r)
    show ?thesis
    proof (cases "collect_results fs")
      case (Inl e)
      then have "map result fs \<noteq> map Inr rs'" for rs' using Cons.IH [of rs'] by simp
      then show ?thesis using Inl Inr by (cases rs) auto
    next
      case (Inr rs')
      then have "map result fs = map Inr rs'" using Cons.IH [of rs'] by simp
      then show ?thesis using Inr \<open>result f = Inr r\<close> by (cases rs) (auto dest: map_inj_on)
    qed
  qed
qed

lemma successful_map_Some: "successful (map Some rs) = Inr (filter success rs)"
  by (induction rs) simp_all

lemma successful_Inr:
  "successful results = Inr ss \<Longrightarrow> \<exists>rs. results = map Some rs \<and> ss = filter success rs"
proof (induction results arbitrary: ss rule: successful.induct)
  case 1
  then show ?case by simp
next
  case (2 rs)
  then show ?case by simp
next
  case (3 r rs)
  from 3(2) obtain ss' where s: "successful rs = Inr ss'"
    and ss: "ss = (if success r then r # ss' else ss')"
    by (auto split: sum.splits)
  from 3(1) [OF s] obtain rs' where rs': "rs = map Some rs'" "ss' = filter success rs'"
    by blast
  have "Some r # rs = map Some (r # rs') \<and> ss = filter success (r # rs')"
    using ss rs' by simp
  then show ?case by (rule exI)
qed

lemma fold_max_ge: "a \<le> fold max xs a" for a :: rat
  by (induction xs arbitrary: a) (auto intro: order_trans [OF max.cobounded2])

lemma fold_max_mem: "x \<in> set xs \<Longrightarrow> x \<le> fold max xs a" for a :: rat
proof (induction xs arbitrary: a)
  case Nil
  then show ?case by simp
next
  case (Cons y ys)
  show ?case
  proof (cases "x = y")
    case True
    then show ?thesis using fold_max_ge [of "max y a" ys] by simp
  next
    case False
    then show ?thesis using Cons by simp
  qed
qed

lemma length_submit_all [simp]:
  "length (submit_all cfg num_requests n tgts t0) = nat num_requests"
  by (simp add: submit_all_def py_range_def)

lemma set_as_completed [simp]: "set (as_completed fs) = set fs"
  by (simp add: as_completed_def)

lemma length_as_completed [simp]: "length (as_completed fs) = length fs"
  by (simp add: as_completed_def)

lemma in_submit_all:
  "f \<in> set (submit_all cfg num_requests n tgts t0) \<longleftrightarrow>
     (\<exists>j. int j < num_requests \<and> f = submit cfg n (tgts j) t0)"
  by (auto simp: submit_all_def py_range_def zless_nat_eq_int_zless)

lemma collect_all_returned:
  assumes "\<forall>f\<in>set fs. \<exists>r. result f = Inr (Some r) \<and> P r"
  shows "\<exists>rs. collect_results fs = Inr (map Some rs) \<and> length rs = length fs
           \<and> (\<forall>r\<in>set rs. P r)"
  using assms
proof (induction fs)
  case Nil
  then show ?case by simp
next
  case (Cons f fs)
  then obtain r where r: "result f = Inr (Some r)" "P r" by auto
  from Cons obtain rs where rs: "collect_results fs = Inr (map Some rs)"
    "length rs = length fs" "\<forall>r\<in>set rs. P r" by auto
  have "collect_results (f # fs) = Inr (map Some (r # rs)) \<and> length (r # rs) = length (f # fs)
      \<and> (\<forall>x\<in>set (r # rs). P x)"
    using r rs by simp
  then show ?case by (rule exI)
qed

lemma aggregate_map_Some:
  "num_requests \<noteq> 0 \<Longrightarrow>
   aggregate num_requests t (map Some rs) =
     Inr \<lparr>total_time = t,
          throughput = (if t > 0 then of_int num_requests / t else 0),
          avg_calculation_time =
            (if filter success rs = [] then 0
             else sum_list (map execution_time (filter success rs))
                    / of_nat (length (filter success rs))),
          request_count = num_requests,
          success_rate = of_nat (length (filter success rs)) / of_int num_requests,
          latencies = map execution_time (filter success rs)\<rparr>"
  by (simp add: aggregate_def successful_map_Some truediv_def mean_def)

lemma aggregate_Inr:
  assumes "aggregate num_requests t results = Inr s"
  shows "\<exists>rs. results = map Some rs \<and> num_requests \<noteq> 0
           \<and> s = \<lparr>total_time = t,
                  throughput = (if t > 0 then of_int num_requests / t else 0),
                  avg_calculation_time =
                    (if filter success rs = [] then 0
                     else sum_list (map execution_time (filter success rs))
                            / of_nat (length (filter success rs))),
                  request_count = num_requests,
                  success_rate = of_nat (length (filter success rs)) / of_int num_requests,
                  latencies = map execution_time (filter success rs)\<rparr>"
proof -
  obtain ss where ss: "successful results = Inr ss"
    using assms by (auto simp: aggregate_def split: sum.splits)
  then obtain rs where rs: "results = map Some rs" "ss = filter success rs"
    using successful_Inr by blast
  have nz: "num_requests \<noteq> 0"
    using assms ss by (auto simp: aggregate_def truediv_def split: sum.splits if_splits)
  show ?thesis using assms rs(1) nz aggregate_map_Some [OF nz, of t rs] by auto
qed

text \<open>What a returned summary holds.\<close>

lemma run_workload_Inr:
  assumes "run_workload cfg num_requests n tgts w = (Inr s, w')"
  shows "\<exists>rs. collect_results (as_completed (submit_all cfg num_requests n tgts (clock w)))
                 = Inr (map Some rs)
           \<and> 1 \<le> num_requests \<and> length rs = nat num_requests
           \<and> total_time s = clock w' - clock w
           \<and> request_count s = num_requests
           \<and> success_rate s = of_nat (length (filter success rs)) / of_int num_requests
           \<and> latencies s = map execution_time (filter success rs)
           \<and> avg_calculation_time s =
                (if filter success rs = [] then 0
                 else sum_list (map execution_time (filter success rs))
                        / of_nat (length (filter success rs)))"
proof -
  have pos: "1 \<le> num_requests"
    using assms by (auto simp: run_workload_def split: if_splits)
  obtain results where c:
    "collect_results (as_completed (submit_all cfg num_requests n tgts (clock w))) = Inr results"
    using assms pos by (auto simp: run_workload_def Let_def split: sum.splits)
  have a: "aggregate num_requests (clock w' - clock w) results = Inr s"
    using assms pos c by (auto simp: run_workload_def Let_def)
  from aggregate_Inr [OF a] obtain rs where rs: "results = map Some rs"
    and s: "s = \<lparr>total_time = clock w' - clock w,
                  throughput = (if clock w' - clock w > 0
                                then of_int num_requests / (clock w' - clock w) else 0),
                  avg_calculation_time =
                    (if filter success rs = [] then 0
                     else sum_list (map execution_time (filter success rs))
                            / of_nat (length (filter success rs))),
                  request_count = num_requests,
                  success_rate = of_nat (length (filter success rs)) / of_int num_requests,
                  latencies = map execution_time (filter success rs)\<rparr>"
    by blast
  have "length results = nat num_requests"
    using c by (simp add: collect_results_Inr) (metis length_map length_as_completed length_submit_all)
  then have len: "length rs = nat num_requests" using rs by simp
  have "collect_results (as_completed (submit_all cfg num_requests n tgts (clock w)))
                 = Inr (map Some rs)
           \<and> 1 \<le> num_requests \<and> length rs = nat num_requests
           \<and> total_time s = clock w' - clock w
           \<and> request_count s = num_requests
           \<and> success_rate s = of_nat (length (filter success rs)) / of_int num_requests
           \<and> latencies s = map execution_time (filter success rs)
           \<and> avg_calculation_time s =
                (if filter success rs = [] then 0
                 else sum_list (map execution_time (filter success rs))
                        / of_nat (length (filter success rs)))"
    using c rs pos len by (simp add: s)
  then show ?thesis by (rule exI)
qed

lemma py_round_of_nat [simp]: "py_round (of_nat k) = int k"
  by (simp add: py_round_def)

text \<open>With a retry budget and calls whose attempts succeed or fail with a request
  exception, a batch of at least one call returns its summary.\<close>

lemma run_workload_contained:
  assumes "1 \<le> num_requests" and "1 \<le> MAX_RETRIES cfg"
    and "\<forall>j i. int j < num_requests \<and> int i < MAX_RETRIES cfg \<longrightarrow> contained (tgts j) i"
  shows "\<exists>s w'. run_workload cfg num_requests n tgts w = (Inr s, w')
           \<and> request_count s = num_requests
           \<and> total_time s = clock w' - clock w
           \<and> ((\<forall>j i. int j < num_requests \<and> int i < MAX_RETRIES cfg \<longrightarrow> fails (tgts j) i)
                \<longrightarrow> success_rate s = 0 \<and> latencies s = [])"
proof -
  let ?fs = "submit_all cfg num_requests n tgts (clock w)"
  let ?allfail = "\<forall>j i. int j < num_requests \<and> int i < MAX_RETRIES cfg \<longrightarrow> fails (tgts j) i"
  have each: "\<forall>f\<in>set (as_completed ?fs). \<exists>r. result f = Inr (Some r) \<and> (?allfail \<longrightarrow> \<not> success r)"
  proof
    fix f assume "f \<in> set (as_completed ?fs)"
    then obtain j where j: "int j < num_requests" and f: "f = submit cfg n (tgts j) (clock w)"
      by (auto simp: in_submit_all)
    have c: "\<forall>i. int i < MAX_RETRIES cfg \<longrightarrow> contained (tgts j) i" using assms(3) j by simp
    from submit_contained [OF assms(2) c, of n "clock w"] obtain r where
      r: "result f = Inr (Some r)"
      and s: "success r \<longleftrightarrow> (\<exists>i d. int i < MAX_RETRIES cfg \<and> outcome (tgts j) i = Inr d)"
      using f by blast
    have "\<not> success r" if ?allfail
    proof
      assume "success r"
      then obtain i d where i: "int i < MAX_RETRIES cfg" "outcome (tgts j) i = Inr d"
        using s by blast
      have "fails (tgts j) i" using \<open>?allfail\<close> j i(1) by simp
      then show False using i(2) by (simp add: fails_def)
    qed
    then show "\<exists>r. result f = Inr (Some r) \<and> (?allfail \<longrightarrow> \<not> success r)" using r by blast
  qed
  from collect_all_returned [OF each] obtain rs where
    c: "collect_results (as_completed ?fs) = Inr (map Some rs)"
    and p: "\<forall>r\<in>set rs. ?allfail \<longrightarrow> \<not> success r"
    by blast
  have nz: "num_requests \<noteq> 0" using assms(1) by simp
  have none: "filter success rs = []" if ?allfail
    using p that by (simp add: filter_empty_conv)
  show ?thesis
    using assms(1) c none
    by (simp add: run_workload_def Let_def aggregate_map_Some [OF nz])
qed

lemma run_workload_takes_time:
  assumes "1 \<le> num_requests" and "1 \<le> MAX_RETRIES cfg"
    and "\<forall>j i. 0 < took (tgts j) i \<and> 0 \<le> oversleep (tgts j) i"
  shows "clock w < clock (snd (run_workload cfg num_requests n tgts w))"
proof -
  let ?fs = "submit_all cfg num_requests n tgts (clock w)"
  have w': "clock (snd (run_workload cfg num_requests n tgts w)) = fold max (map finished ?fs) (clock w)"
    using assms(1) by (simp add: run_workload_def Let_def split: sum.splits)
  have "int 0 < num_requests \<and> submit cfg n (tgts 0) (clock w) = submit cfg n (tgts 0) (clock w)"
    using assms(1) by simp
  then have "submit cfg n (tgts 0) (clock w) \<in> set ?fs"
    unfolding in_submit_all by (rule exI)
  then have "finished (submit cfg n (tgts 0) (clock w)) \<le> fold max (map finished ?fs) (clock w)"
    by (intro fold_max_mem) simp
  moreover have "clock w < finished (submit cfg n (tgts 0) (clock w))"
    using submit_finished_later [OF assms(2), of "tgts 0"] assms(3) by simp
  ultimately show ?thesis using w' by simp
qed

text \<open>The latencies of a summary are as many as the calls that succeed.\<close>

lemma call_succeeds_iff:
  "call_succeeds cfg tgt \<longleftrightarrow> (\<exists>i d. int i < MAX_RETRIES cfg \<and> outcome tgt i = Inr d)"
proof
  assume "call_succeeds cfg tgt"
  then obtain i where i: "i < nat (MAX_RETRIES cfg)"
    and o: "case outcome tgt i of Inl e \<Rightarrow> False | Inr d \<Rightarrow> True"
    by (auto simp: call_succeeds_def py_range_def list_ex_iff)
  obtain d where "outcome tgt i = Inr d" using o by (cases "outcome tgt i") simp_all
  moreover have "int i < MAX_RETRIES cfg" using i by (simp add: zless_nat_eq_int_zless)
  ultimately show "\<exists>i d. int i < MAX_RETRIES cfg \<and> outcome tgt i = Inr d" by blast
next
  assume "\<exists>i d. int i < MAX_RETRIES cfg \<and> outcome tgt i = Inr d"
  then obtain i d where i: "int i < MAX_RETRIES cfg" and o: "outcome tgt i = Inr d" by blast
  have "i \<in> set (py_range (MAX_RETRIES cfg))"
    using i by (simp add: py_range_def zless_nat_eq_int_zless)
  then show "call_succeeds cfg tgt"
    unfolding call_succeeds_def list_ex_iff using o by (intro bexI [of _ i]) simp_all
qed

lemma length_filter_sort_key: "length (filter P (sort_key f xs)) = length (filter P xs)"
  by (simp add: filter_sort)

lemma count_successes:
  assumes "map result fs = map Inr (map Some rs)"
  shows "length (filter success rs)
           = length (filter (\<lambda>f. case result f of Inr (Some r) \<Rightarrow> success r | _ \<Rightarrow> False) fs)"
  using assms
proof (induction fs arbitrary: rs)
  case Nil
  then show ?case by simp
next
  case (Cons f fs)
  then obtain r rs' where rs: "rs = r # rs'" by (cases rs) auto
  then have "result f = Inr (Some r)" "map result fs = map Inr (map Some rs')"
    using Cons.prems by simp_all
  then show ?case using Cons.IH [of rs'] rs by simp
qed

lemma run_workload_counts:
  assumes "run_workload cfg num_requests n tgts w = (Inr s, w')"
    and "1 \<le> MAX_RETRIES cfg"
    and "\<forall>j i. int j < num_requests \<and> int i < MAX_RETRIES cfg \<longrightarrow> contained (tgts j) i"
  shows "length (latencies s)
           = length (filter (\<lambda>j. call_succeeds cfg (tgts j)) (py_range num_requests))"
proof -
  let ?fs = "submit_all cfg num_requests n tgts (clock w)"
  let ?g = "\<lambda>f. case result f of Inr (Some r) \<Rightarrow> success r | _ \<Rightarrow> False"
  from run_workload_Inr [OF assms(1)] obtain rs where
    "collect_results (as_completed ?fs) = Inr (map Some rs)
           \<and> 1 \<le> num_requests \<and> length rs = nat num_requests
           \<and> total_time s = clock w' - clock w
           \<and> request_count s = num_requests
           \<and> success_rate s = of_nat (length (filter success rs)) / of_int num_requests
           \<and> latencies s = map execution_time (filter success rs)
           \<and> avg_calculation_time s =
                (if filter success rs = [] then 0
                 else sum_list (map execution_time (filter success rs))
                        / of_nat (length (filter success rs)))" ..
  then have c: "collect_results (as_completed ?fs) = Inr (map Some rs)"
    and lat: "latencies s = map execution_time (filter success rs)"
    by simp_all
  have "length (filter success rs) = length (filter ?g (as_completed ?fs))"
    using c by (intro count_successes) (simp add: collect_results_Inr)
  also have "\<dots> = length (filter ?g ?fs)"
    by (simp add: as_completed_def length_filter_sort_key)
  also have "\<dots> = length (filter (\<lambda>j. ?g (submit cfg n (tgts j) (clock w))) (py_range num_requests))"
    by (simp add: submit_all_def filter_map comp_def)
  also have "\<dots> = length (filter (\<lambda>j. call_succeeds cfg (tgts j)) (py_range num_requests))"
  proof -
    have "?g (submit cfg n (tgts j) (clock w)) \<longleftrightarrow> call_succeeds cfg (tgts j)"
      if "j \<in> set (py_range num_requests)" for j
    proof -
      have j: "int j < num_requests"
        using that by (simp add: py_range_def zless_nat_eq_int_zless)
      have cont: "\<forall>i. int i < MAX_RETRIES cfg \<longrightarrow> contained (tgts j) i"
        using assms(3) j by simp
      from submit_contained [OF assms(2) cont, of n "clock w"] obtain r where
        "result (submit cfg n (tgts j) (clock w)) = Inr (Some r)"
        "success r \<longleftrightarrow> (\<exists>i d. int i < MAX_RETRIES cfg \<and> outcome (tgts j) i = Inr d)"
        by blast
      then show ?thesis by (simp add: call_succeeds_iff)
    qed
    then have "filter (\<lambda>j. ?g (submit cfg n (tgts j) (clock w))) (py_range num_requests)
        = filter (\<lambda>j. call_succeeds cfg (tgts j)) (py_range num_requests)"
      by (intro filter_cong refl)
    then show ?thesis by (rule arg_cong)
  qed
  finally show ?thesis using lat by simp
qed






text \<open>Two batches run against the example targets.\<close>

lemma submit_refusing:
  "submit CONFIG 100000 refusing 0 =
     \<lparr>result = Inr (Some \<lparr>response_data = PyNone, execution_time = 23 / 10, success = False,
                            error = Some ''Connection refused''\<rparr>),
      finished = 23 / 10,
      events = [Get ''IP_OF_THE_VM/sum'' 100000 30, Sleep 1, Get ''IP_OF_THE_VM/sum'' 100000 30,
                Sleep 1, Get ''IP_OF_THE_VM/sum'' 100000 30]\<rparr>"
  by (simp add: submit_def send_request_upt retry_loop_upt outcome_def refusing_def CONFIG_def
      requests_get_def time_sleep_def)

lemma submit_serving:
  "submit CONFIG 100000 (serving d) 0 =
     \<lparr>result = Inr (Some \<lparr>response_data = d, execution_time = 1 / 100, success = True,
                            error = None\<rparr>),
      finished = 1 / 100,
      events = [Get ''IP_OF_THE_VM/sum'' 100000 30]\<rparr>"
  by (simp add: submit_def send_request_upt retry_loop_upt outcome_def serving_def CONFIG_def
      requests_get_def time_sleep_def)

lemma run_half:
  "run_workload CONFIG 2 100000 (\<lambda>j. if j = 0 then refusing else serving sum_100) idle =
     (Inr \<lparr>total_time = 23 / 10, throughput = 20 / 23, avg_calculation_time = 1 / 100,
           request_count = 2, success_rate = 1 / 2, latencies = [1 / 100]\<rparr>,
      \<lparr>clock = 23 / 10,
       trace = [Get ''IP_OF_THE_VM/sum'' 100000 30, Sleep 1, Get ''IP_OF_THE_VM/sum'' 100000 30,
                Sleep 1, Get ''IP_OF_THE_VM/sum'' 100000 30, Get ''IP_OF_THE_VM/sum'' 100000 30]\<rparr>)"
  by (simp add: run_workload_def submit_all_def py_range_def submit_refusing submit_serving
      idle_def as_completed_def aggregate_def truediv_def mean_def upt_rec Let_def)

lemma run_all_fail:
  "fst (run_workload CONFIG 5 100000 (\<lambda>j. refusing) idle) =
     Inr \<lparr>total_time = 23 / 10, throughput = 50 / 23, avg_calculation_time = 0,
          request_count = 5, success_rate = 0, latencies = []\<rparr>"
  by (simp add: run_workload_def submit_all_def py_range_def submit_refusing idle_def
      as_completed_def aggregate_def truediv_def upt_rec Let_def)

section \<open>Claims about run_workload\<close>

text \<open>
  C6. Every summary \<^verbatim>\<open>run_workload\<close> returns has a success rate between 0 and 1, as many
  latencies as \<^verbatim>\<open>round(success_rate * request_count)\<close>, and its latencies are the
  elapsed times of the successful results, in the order the calls completed.
  (Arithmetic is exact here; Python computes the rate in floating point.)
\<close>

theorem run_workload_summary_invariant:
  assumes "run_workload cfg num_requests n tgts w = (Inr s, w')"
  shows "0 \<le> success_rate s \<and> success_rate s \<le> 1
     \<and> int (length (latencies s)) = py_round (success_rate s * of_int (request_count s))
     \<and> (\<exists>rs. collect_results (as_completed (submit_all cfg num_requests n tgts (clock w)))
                 = Inr (map Some rs)
            \<and> latencies s = map execution_time (filter success rs))"
proof -
  from run_workload_Inr [OF assms] obtain rs where
    c: "collect_results (as_completed (submit_all cfg num_requests n tgts (clock w)))
          = Inr (map Some rs)"
    and pos: "1 \<le> num_requests" and len: "length rs = nat num_requests"
    and rate: "success_rate s = of_nat (length (filter success rs)) / of_int num_requests"
    and cnt: "request_count s = num_requests"
    and lat: "latencies s = map execution_time (filter success rs)"
    by blast
  have le: "length (filter success rs) \<le> nat num_requests"
    using len length_filter_le [of success rs] by simp
  have "(of_nat (length (filter success rs)) :: rat) \<le> of_nat (nat num_requests)"
    using le by (simp only: of_nat_le_iff)
  then have le': "(of_nat (length (filter success rs)) :: rat) \<le> of_int num_requests"
    using pos by simp
  have r0: "0 \<le> success_rate s" using rate pos by simp
  have r1: "success_rate s \<le> 1" using rate pos le' by (simp add: divide_le_eq_1)
  have "success_rate s * of_int (request_count s) = of_nat (length (filter success rs))"
    using rate cnt pos by simp
  then have rd: "int (length (latencies s)) = py_round (success_rate s * of_int (request_count s))"
    using lat by simp
  show ?thesis using r0 r1 rd c lat by blast
qed

theorem run_workload_summary_invariant_witness:
  "run_workload CONFIG 2 100000 (\<lambda>j. if j = 0 then refusing else serving sum_100) idle =
     (Inr \<lparr>total_time = 23 / 10, throughput = 20 / 23, avg_calculation_time = 1 / 100,
           request_count = 2, success_rate = 1 / 2, latencies = [1 / 100]\<rparr>,
      \<lparr>clock = 23 / 10,
       trace = [Get ''IP_OF_THE_VM/sum'' 100000 30, Sleep 1, Get ''IP_OF_THE_VM/sum'' 100000 30,
                Sleep 1, Get ''IP_OF_THE_VM/sum'' 100000 30, Get ''IP_OF_THE_VM/sum'' 100000 30]\<rparr>)
   \<and> int (length [1 / 100 :: rat]) = py_round (1 / 2 * of_int 2)"
  using run_workload_summary_invariant [OF run_half] run_half by simp

text \<open>
  C1 as stated fails: five calls against a target that refuses every connection give a
  summary whose mean latency is the number 0.
\<close>

theorem all_failed_mean_is_zero:
  "fst (run_workload CONFIG 5 100000 (\<lambda>j. refusing) idle) =
     Inr \<lparr>total_time = 23 / 10, throughput = 50 / 23, avg_calculation_time = 0,
          request_count = 5, success_rate = 0, latencies = []\<rparr>"
  by (rule run_all_fail)

text \<open>
  C1, amended. Whenever a level's summary has a success rate of zero, its mean latency
  \<^verbatim>\<open>avg_calculation_time\<close> is the number 0 and its list of latencies is empty: the
  empty list is the only sign that there is no latency data.
\<close>

theorem run_workload_no_success_mean_zero:
  assumes "run_workload cfg num_requests n tgts w = (Inr s, w')"
    and "success_rate s = 0"
  shows "avg_calculation_time s = 0 \<and> latencies s = []"
proof -
  from run_workload_Inr [OF assms(1)] obtain rs where
    "collect_results (as_completed (submit_all cfg num_requests n tgts (clock w)))
                 = Inr (map Some rs)
           \<and> 1 \<le> num_requests \<and> length rs = nat num_requests
           \<and> total_time s = clock w' - clock w
           \<and> request_count s = num_requests
           \<and> success_rate s = of_nat (length (filter success rs)) / of_int num_requests
           \<and> latencies s = map execution_time (filter success rs)
           \<and> avg_calculation_time s =
                (if filter success rs = [] then 0
                 else sum_list (map execution_time (filter success rs))
                        / of_nat (length (filter success rs)))" ..
  then have pos: "1 \<le> num_requests"
    and rate: "success_rate s = of_nat (length (filter success rs)) / of_int num_requests"
    and lat: "latencies s = map execution_time (filter success rs)"
    and avg: "avg_calculation_time s =
                (if filter success rs = [] then 0
                 else sum_list (map execution_time (filter success rs))
                        / of_nat (length (filter success rs)))"
    by simp_all
  have "filter success rs = []" using rate assms(2) pos by simp
  then show ?thesis using avg lat by simp
qed

theorem run_workload_no_success_mean_zero_witness:
  "\<exists>s w'. run_workload CONFIG 5 100000 (\<lambda>j. refusing) idle = (Inr s, w')
     \<and> success_rate s = 0 \<and> avg_calculation_time s = 0 \<and> latencies s = []"
proof -
  let ?s = "\<lparr>total_time = 23 / 10, throughput = 50 / 23, avg_calculation_time = 0,
          request_count = 5, success_rate = 0, latencies = []\<rparr>"
  let ?w = "snd (run_workload CONFIG 5 100000 (\<lambda>j. refusing) idle)"
  have run: "run_workload CONFIG 5 100000 (\<lambda>j. refusing) idle = (Inr ?s, ?w)"
    using run_all_fail by (simp add: prod_eq_iff)
  have "avg_calculation_time ?s = 0 \<and> latencies ?s = []"
    using run_workload_no_success_mean_zero [OF run] by simp
  then show ?thesis using run by (intro exI [of _ ?s] exI [of _ ?w]) simp
qed

text \<open>
  C10. Called with \<open>num_requests = 0\<close> (or less), \<^verbatim>\<open>run_workload\<close> raises the
  \<^verbatim>\<open>ValueError\<close> of the worker pool before any call is made, and returns no summary;
  were the reduction of lines 76-87 reached with a zero count, its division for the
  success rate would raise as well.
\<close>

theorem run_workload_rejects_zero:
  assumes "num_requests \<le> 0"
  shows "run_workload cfg num_requests n tgts w =
           (Inl (Exn ValueError ''max_workers must be greater than 0''), w)
         \<and> (num_requests = 0 \<longrightarrow>
              aggregate num_requests t (map Some rs)
                = Inl (Exn ZeroDivisionError ''division by zero''))"
  using assms
  by (simp add: run_workload_def aggregate_def successful_map_Some truediv_def)

theorem run_workload_rejects_zero_witness:
  "run_workload CONFIG 0 100000 (\<lambda>j. serving sum_100) idle =
     (Inl (Exn ValueError ''max_workers must be greater than 0''), idle)
   \<and> aggregate 0 0 (map Some []) = Inl (Exn ZeroDivisionError ''division by zero'')"
  using run_workload_rejects_zero [of 0 CONFIG 100000 "\<lambda>j. serving sum_100" idle 0 "[]"]
  by simp

section \<open>The sweep\<close>



lemma sweep_contained:
  assumes "1 \<le> MAX_RETRIES cfg"
    and "\<forall>c\<in>set counts. 1 \<le> c"
    and "\<forall>l j i. contained (env l j) i"
  shows "\<exists>rs w'. sweep cfg env l counts acc w = (Inr (acc @ rs), w')
           \<and> map request_count rs = counts
           \<and> ((\<forall>l j i. 0 < took (env l j) i \<and> 0 \<le> oversleep (env l j) i)
                \<longrightarrow> (\<forall>r\<in>set rs. 0 < total_time r))"
  using assms(2)
proof (induction counts arbitrary: l acc w)
  case Nil
  then show ?case by simp
next
  case (Cons c counts)
  let ?phys = "\<forall>l j i. 0 < took (env l j) i \<and> 0 \<le> oversleep (env l j) i"
  have c: "1 \<le> c" using Cons.prems by simp
  have cont: "\<forall>j i. int j < c \<and> int i < MAX_RETRIES cfg \<longrightarrow> contained (env l j) i"
    using assms(3) by simp
  from run_workload_contained [OF c assms(1) cont, where n = "DEFAULT_N_VALUE cfg" and w = w]
  obtain s w1 where run: "run_workload cfg c (DEFAULT_N_VALUE cfg) (env l) w = (Inr s, w1)"
    and cnt: "request_count s = c" and tt: "total_time s = clock w1 - clock w"
    by blast
  have pos: "0 < total_time s" if ?phys
  proof -
    have "\<forall>j i. 0 < took (env l j) i \<and> 0 \<le> oversleep (env l j) i" using that by simp
    from run_workload_takes_time [OF c assms(1) this, where n = "DEFAULT_N_VALUE cfg" and w = w]
    show ?thesis using run tt by simp
  qed
  have rest: "\<forall>c\<in>set counts. 1 \<le> c" using Cons.prems by simp
  from Cons.IH [OF rest, where l = "Suc l" and acc = "acc @ [s]" and w = w1]
  obtain rs w' where sw: "sweep cfg env (Suc l) counts (acc @ [s]) w1 = (Inr ((acc @ [s]) @ rs), w')"
    and m: "map request_count rs = counts" and p: "?phys \<longrightarrow> (\<forall>r\<in>set rs. 0 < total_time r)"
    by blast
  show ?case
    by (rule exI [of _ "s # rs"], rule exI [of _ w']) (use run sw m p cnt pos in simp)
qed



section \<open>Claims about the sweep\<close>

text \<open>
  C5. For a level of at least one call and any mix of call outcomes, \<^verbatim>\<open>run_workload\<close>
  raises nothing and returns a summary for that level: failed calls abort nothing, the
  summary has one latency for each call that succeeds, and when every attempt of every
  call fails it has success rate 0 and no latencies. Hence the sweep loop of
  \<^verbatim>\<open>main\<close> completes with exactly one summary per configured level, in order, also
  when whole levels fail. (The retry budget is at least one attempt.)
\<close>

theorem run_workload_never_raises:
  assumes "1 \<le> num_requests" and "1 \<le> MAX_RETRIES cfg"
    and "\<forall>c\<in>set (REQUEST_COUNTS cfg). 1 \<le> c"
    and "\<forall>j i. int j < num_requests \<and> int i < MAX_RETRIES cfg \<longrightarrow> contained (tgts j) i"
    and "\<forall>l j i. contained (env l j) i"
  shows "(\<exists>s w'. run_workload cfg num_requests n tgts w = (Inr s, w')
            \<and> request_count s = num_requests
            \<and> length (latencies s)
                = length (filter (\<lambda>j. call_succeeds cfg (tgts j)) (py_range num_requests))
            \<and> ((\<forall>j i. int j < num_requests \<and> int i < MAX_RETRIES cfg \<longrightarrow> fails (tgts j) i)
                 \<longrightarrow> success_rate s = 0 \<and> latencies s = []))
       \<and> (\<exists>rs w'. sweep cfg env 0 (REQUEST_COUNTS cfg) [] w0 = (Inr rs, w')
            \<and> map request_count rs = REQUEST_COUNTS cfg)"
proof
  from run_workload_contained [OF assms(1,2,4), of n w] obtain s w' where
    run: "run_workload cfg num_requests n tgts w = (Inr s, w')"
    and cnt: "request_count s = num_requests"
    and allfail: "(\<forall>j i. int j < num_requests \<and> int i < MAX_RETRIES cfg \<longrightarrow> fails (tgts j) i)
                 \<longrightarrow> success_rate s = 0 \<and> latencies s = []"
    by blast
  note run_workload_counts [OF run assms(2,4)]
  with run cnt allfail
  show "\<exists>s w'. run_workload cfg num_requests n tgts w = (Inr s, w')
            \<and> request_count s = num_requests
            \<and> length (latencies s)
                = length (filter (\<lambda>j. call_succeeds cfg (tgts j)) (py_range num_requests))
            \<and> ((\<forall>j i. int j < num_requests \<and> int i < MAX_RETRIES cfg \<longrightarrow> fails (tgts j) i)
                 \<longrightarrow> success_rate s = 0 \<and> latencies s = [])"
    by blast
  show "\<exists>rs w'. sweep cfg env 0 (REQUEST_COUNTS cfg) [] w0 = (Inr rs, w')
            \<and> map request_count rs = REQUEST_COUNTS cfg"
    using sweep_contained [OF assms(2,3,5), where l = 0 and acc = "[]" and w = w0] by auto
qed

theorem run_workload_never_raises_witness:
  "(\<exists>s w'. run_workload CONFIG 2 100000 (\<lambda>j. if j = 0 then refusing else serving sum_100) idle
              = (Inr s, w')
      \<and> request_count s = 2 \<and> length (latencies s) = 1)
   \<and> (\<exists>s w'. run_workload CONFIG 5 100000 (\<lambda>j. refusing) idle = (Inr s, w')
      \<and> request_count s = 5 \<and> success_rate s = 0 \<and> latencies s = [])
   \<and> (\<exists>rs w'. sweep CONFIG (\<lambda>l j. refusing) 0 (REQUEST_COUNTS CONFIG) [] idle = (Inr rs, w')
      \<and> map request_count rs = [1, 10, 50, 100, 200, 300, 400, 500, 600, 700, 800, 900, 1000])"
proof -
  have c: "contained refusing i" "contained (serving sum_100) i" and f: "fails refusing i" for i
    by (simp_all add: contained_def fails_def outcome_def refusing_def serving_def)
  have s: "call_succeeds CONFIG (serving sum_100)" "\<not> call_succeeds CONFIG refusing"
    by (auto simp: call_succeeds_iff outcome_def refusing_def serving_def CONFIG_def
        intro: exI [of _ 0])
  have m: "1 \<le> MAX_RETRIES CONFIG" and l: "\<forall>c\<in>set (REQUEST_COUNTS CONFIG). 1 \<le> c"
    by (simp_all add: CONFIG_def)
  have e: "\<forall>l j i. contained refusing i" using c by simp
  have c2: "\<forall>j i. int j < 2 \<and> int i < MAX_RETRIES CONFIG
      \<longrightarrow> contained (if j = 0 then refusing else serving sum_100) i"
    using c by simp
  have c5: "\<forall>j i. int j < 5 \<and> int i < MAX_RETRIES CONFIG \<longrightarrow> contained refusing i"
    using c by simp
  have n2: "length (filter (\<lambda>j. call_succeeds CONFIG (if j = 0 then refusing else serving sum_100))
      (py_range 2)) = 1"
    using s by (simp add: py_range_def upt_rec)
  have mixed: "\<exists>s w'. run_workload CONFIG 2 100000
        (\<lambda>j. if j = 0 then refusing else serving sum_100) idle = (Inr s, w')
      \<and> request_count s = 2 \<and> length (latencies s) = 1"
    using run_workload_never_raises [OF _ m l c2 e, of 100000 idle idle] n2 by auto
  have failing: "(\<exists>s w'. run_workload CONFIG 5 100000 (\<lambda>j. refusing) idle = (Inr s, w')
      \<and> request_count s = 5 \<and> success_rate s = 0 \<and> latencies s = [])
   \<and> (\<exists>rs w'. sweep CONFIG (\<lambda>l j. refusing) 0 (REQUEST_COUNTS CONFIG) [] idle = (Inr rs, w')
      \<and> map request_count rs = [1, 10, 50, 100, 200, 300, 400, 500, 600, 700, 800, 900, 1000])"
    using run_workload_never_raises [OF _ m l c5 e, of 100000 idle idle] f
    by (auto simp: CONFIG_def)
  show ?thesis using mixed failing by blast
qed




end
